theory Spec2Isabelle
  imports
    Complex_Main
    "HOL-Library.Sublist"
    "HOL-Library.Multiset"
    "HOL-Library.List_Lexorder"
    "HOL-Library.Product_Lexorder"
begin

section \<open>Python strings\<close>

text \<open>
  A Python \<open>str\<close> is a sequence of Unicode code points, so it is modelled as a list of
  natural numbers; \<open>u\<close> turns a literal into its code points.  The two hydrate markers
  of the source are U+2022 (bullet) and U+00B7 (middle dot).

  Whitespace is the full table behind \<open>str.strip()\<close>, \<open>str.isspace()\<close> and the regex
  class \<open>\s\<close>.  The classes \<open>\d\<close> and \<open>\w\<close> and the case mapping \<open>str.lower()\<close> are
  modelled on the ASCII range; every other code point is neither digit nor word character
  and is its own lower case.
\<close>

type_synonym str = "nat list"

definition u :: "string \<Rightarrow> str" where
  "u s = map of_char s"

definition bullet :: nat where
  "bullet = 8226"

definition middot :: nat where
  "middot = 183"

definition is_space :: "nat \<Rightarrow> bool" where
  "is_space c \<longleftrightarrow>
     (9 \<le> c \<and> c \<le> 13) \<or> (28 \<le> c \<and> c \<le> 32) \<or> c = 133 \<or> c = 160 \<or> c = 5760 \<or>
     (8192 \<le> c \<and> c \<le> 8202) \<or> c = 8232 \<or> c = 8233 \<or> c = 8239 \<or> c = 8287 \<or> c = 12288"

definition is_upper :: "nat \<Rightarrow> bool" where
  "is_upper c \<longleftrightarrow> 65 \<le> c \<and> c \<le> 90"

definition is_lower :: "nat \<Rightarrow> bool" where
  "is_lower c \<longleftrightarrow> 97 \<le> c \<and> c \<le> 122"

definition is_digit :: "nat \<Rightarrow> bool" where
  "is_digit c \<longleftrightarrow> 48 \<le> c \<and> c \<le> 57"

definition is_word :: "nat \<Rightarrow> bool" where
  "is_word c \<longleftrightarrow> is_upper c \<or> is_lower c \<or> is_digit c \<or> c = 95"

definition lower_cp :: "nat \<Rightarrow> nat" where
  "lower_cp c = (if is_upper c then c + 32 else c)"

definition lower :: "str \<Rightarrow> str" where
  "lower s = map lower_cp s"

definition strip :: "str \<Rightarrow> str" where
  "strip s = rev (dropWhile is_space (rev (dropWhile is_space s)))"

text \<open>\<open>int(s)\<close> on a string of decimal digits.\<close>

definition int_of_digits :: "str \<Rightarrow> nat" where
  "int_of_digits ds = foldl (\<lambda>a d. 10 * a + (d - 48)) 0 ds"

text \<open>\<open>str(n)\<close> for a non-negative integer.\<close>

function dec :: "nat \<Rightarrow> str" where
  "dec n = (if n < 10 then [48 + n] else dec (n div 10) @ [48 + n mod 10])"
  by pat_completeness auto
termination
  by (relation "measure id") auto

declare dec.simps [simp del]

text \<open>The exceptions that the modelled functions raise.\<close>

datatype exn = ZeroDivisionError | ValueError | RuntimeError


section \<open>Counting atoms: \<open>utils.elemental_counts\<close>\<close>

text \<open>
  \<open>re.findall(r"([A-Z][a-z]?)(\d*)", formula)\<close>: scanning from the left, a match starts
  at an upper-case letter, takes one lower-case letter if it follows, then every digit
  that follows; any other character is skipped.
\<close>

function findall_symbols :: "str \<Rightarrow> (str \<times> str) list" where
  "findall_symbols [] = []"
| "findall_symbols (c # cs) =
     (if is_upper c then
        (case cs of
           d # ds \<Rightarrow>
             (if is_lower d
              then ([c, d], takeWhile is_digit ds) # findall_symbols (dropWhile is_digit ds)
              else ([c], takeWhile is_digit cs) # findall_symbols (dropWhile is_digit cs))
         | [] \<Rightarrow> [([c], [])])
      else findall_symbols cs)"
  by pat_completeness auto
termination
  by (relation "measure length")
     (auto simp: less_Suc_eq_le intro: le_trans [OF length_dropWhile_le])

text \<open>
  The dictionary \<open>counts\<close> starts with 0 for every requested element; each match whose
  symbol is a key \<^emph>\<open>assigns\<close> its count (1 when no digits follow).
\<close>

definition store_count :: "(str \<rightharpoonup> nat) \<Rightarrow> str \<times> str \<Rightarrow> (str \<rightharpoonup> nat)" where
  "store_count counts m =
     (case m of (element, count_str) \<Rightarrow>
        if element \<in> dom counts
        then counts(element \<mapsto> (if count_str = [] then 1 else int_of_digits count_str))
        else counts)"

definition default_elements :: "str list" where
  "default_elements = map u
     [''C'', ''H'', ''O'', ''N'', ''S'', ''P'', ''Cl'', ''Na'', ''K'', ''Mg'', ''Ca'',
      ''Fe'', ''Mn'', ''Zn'', ''Cu'', ''Co'', ''Mo'', ''Ni'', ''Br'']"

definition elemental_counts :: "str \<Rightarrow> str list option \<Rightarrow> (str \<rightharpoonup> nat)" where
  "elemental_counts molecular_formula elements =
     (let els = (case elements of None \<Rightarrow> default_elements | Some es \<Rightarrow> es);
          counts = map_of (map (\<lambda>element. (element, 0)) els)
      in foldl store_count counts (findall_symbols molecular_formula))"

text \<open>What the claim asks for: the atoms of a symbol summed over all its matches.\<close>

definition atoms_of :: "str \<Rightarrow> str \<Rightarrow> nat" where
  "atoms_of molecular_formula element =
     sum_list (map (\<lambda>m. if snd m = [] then 1 else int_of_digits (snd m))
                 (filter (\<lambda>m. fst m = element) (findall_symbols molecular_formula)))"

text \<open>
  C1.  Acetic acid written as \<open>CH3COOH\<close> has two carbon, four hydrogen and two oxygen
  atoms.  \<open>elemental_counts\<close> returns 1 for each of them: a later match of a symbol
  overwrites the earlier count instead of adding to it.
\<close>

theorem elemental_counts_overwrites:
  "elemental_counts (u ''CH3COOH'') (Some [u ''C'', u ''H'', u ''O'']) (u ''C'') = Some 1
   \<and> elemental_counts (u ''CH3COOH'') (Some [u ''C'', u ''H'', u ''O'']) (u ''H'') = Some 1
   \<and> elemental_counts (u ''CH3COOH'') (Some [u ''C'', u ''H'', u ''O'']) (u ''O'') = Some 1
   \<and> atoms_of (u ''CH3COOH'') (u ''C'') = 2
   \<and> atoms_of (u ''CH3COOH'') (u ''H'') = 4
   \<and> atoms_of (u ''CH3COOH'') (u ''O'') = 2"
  by (simp add: elemental_counts_def atoms_of_def store_count_def u_def int_of_digits_def
      is_upper_def is_lower_def is_digit_def)


section \<open>One retried remote call: \<open>step_03_fetch_pubchem._get_json_with_retries\<close>\<close>

text \<open>
  Of \<open>PubchemConfig\<close> the retry loop reads \<open>max_retries\<close> and
  \<open>initial_backoff_seconds\<close> (both Python integers).
\<close>

record pubchem_config =
  max_retries :: int
  initial_backoff_seconds :: int

text \<open>
  What one \<open>session.get(url)\<close> meets.  \<open>Client_error\<close> stands for
  \<open>aiohttp.ClientError\<close> or \<open>asyncio.TimeoutError\<close> raised by the request.  A reply
  with a status carries what \<open>response.json()\<close> would give: the decoded body, a
  \<open>ClientError\<close> (caught by the same handler, since the call is inside the \<open>try\<close>), or
  another exception, which the handler does not catch.
\<close>

datatype 'j payload = Json 'j | Payload_client_error | Payload_decode_error

datatype 'j reply = Http nat "'j payload" | Client_error

text \<open>The call returns a JSON value, returns \<open>None\<close>, or lets an exception escape.\<close>

datatype 'j outcome = Returned "'j option" | Raised

definition next_backoff :: "int \<Rightarrow> int" where
  "next_backoff backoff = min (backoff * 2) 300"

text \<open>
  The \<open>for\<close> loop with its remaining iterations as the recursion argument.  The result is
  the outcome, the arguments of \<open>asyncio.sleep\<close> in order, and the number of GET requests
  issued.  \<open>replies i\<close> is the reply to the \<open>i\<close>-th request.
\<close>

fun attempts_loop :: "nat \<Rightarrow> (nat \<Rightarrow> 'j reply) \<Rightarrow> nat \<Rightarrow> int \<Rightarrow> 'j outcome \<times> int list \<times> nat" where
  "attempts_loop 0 replies i backoff = (Returned None, [], i)"
| "attempts_loop (Suc n) replies i backoff =
     (let retry = (case attempts_loop n replies (Suc i) (next_backoff backoff) of
                     (res, sleeps, gets) \<Rightarrow> (res, backoff # sleeps, gets))
      in case replies i of
           Http status body \<Rightarrow>
             if status = 200 then
               (case body of
                  Json j \<Rightarrow> (Returned (Some j), [], Suc i)
                | Payload_client_error \<Rightarrow> retry
                | Payload_decode_error \<Rightarrow> (Raised, [], Suc i))
             else if status = 429 \<or> status = 503 then retry
             else (Returned None, [], Suc i)
         | Client_error \<Rightarrow> retry)"

definition get_json_with_retries :: "pubchem_config \<Rightarrow> (nat \<Rightarrow> 'j reply) \<Rightarrow> 'j outcome \<times> int list \<times> nat" where
  "get_json_with_retries config replies =
     attempts_loop (nat (max_retries config)) replies 0 (initial_backoff_seconds config)"

text \<open>The replies the claim calls retryable, and the backoff before the \<open>k\<close>-th retry.\<close>

definition retryable :: "'j reply \<Rightarrow> bool" where
  "retryable r \<longleftrightarrow> (case r of Client_error \<Rightarrow> True | Http status body \<Rightarrow> status = 429 \<or> status = 503)"

definition backoff_at :: "pubchem_config \<Rightarrow> nat \<Rightarrow> int" where
  "backoff_at config k = (next_backoff ^^ k) (initial_backoff_seconds config)"

lemma attempts_loop_retry:
  "retryable (replies i) \<Longrightarrow>
   attempts_loop (Suc n) replies i b =
     (case attempts_loop n replies (Suc i) (next_backoff b) of
        (res, sleeps, gets) \<Rightarrow> (res, b # sleeps, gets))"
  by (auto simp: retryable_def split: reply.splits)

lemma attempts_loop_prefix:
  "k \<le> n \<Longrightarrow> \<forall>t<k. retryable (replies (i + t)) \<Longrightarrow>
   attempts_loop n replies i b =
     (case attempts_loop (n - k) replies (i + k) ((next_backoff ^^ k) b) of
        (res, sleeps, gets) \<Rightarrow> (res, map (\<lambda>t. (next_backoff ^^ t) b) [0..<k] @ sleeps, gets))"
proof (induction k arbitrary: n i b)
  case 0
  then show ?case by (simp split: prod.splits)
next
  case (Suc k)
  then obtain m where n: "n = Suc m" and km: "k \<le> m"
    by (cases n) auto
  from Suc.prems have r0: "retryable (replies i)" by (metis add.right_neutral zero_less_Suc)
  from Suc.prems have rest: "\<forall>t<k. retryable (replies (Suc i + t))" by auto
  have shift: "map (\<lambda>t. (next_backoff ^^ t) b) [0..<Suc k] =
      b # map (\<lambda>t. (next_backoff ^^ t) (next_backoff b)) [0..<k]"
    by (simp only: upt_conv_Cons [OF zero_less_Suc] list.map map_Suc_upt [symmetric] map_map o_def funpow_Suc_right)
       simp
  show ?case
    unfolding n attempts_loop_retry [of replies i, OF r0] Suc.IH [OF km rest] shift
    by (simp add: funpow_swap1 split: prod.splits)
qed

text \<open>
  C8.  Let \<open>n\<close> be \<open>max_retries\<close>.  If the first \<open>k < n\<close> replies are retryable (429, 503
  or a transport error) and reply \<open>k\<close> is a 200 with a JSON body, the call returns that
  body; if reply \<open>k\<close> has any status other than 200, 429 and 503, the call returns
  \<open>None\<close> at once; if all \<open>n\<close> replies are retryable, the call returns \<open>None\<close> and raises
  nothing.  In each case the sleeps are exactly the backoffs \<open>initial\<close>,
  \<open>min (2 * initial) 300\<close>, ... one per retryable reply, and no more than \<open>n\<close> requests
  are made.
\<close>

theorem retry_policy:
  fixes config :: pubchem_config and replies :: "nat \<Rightarrow> 'j reply"
  shows "(\<forall>k j. k < nat (max_retries config) \<and> (\<forall>i<k. retryable (replies i))
              \<and> replies k = Http 200 (Json j) \<longrightarrow>
           get_json_with_retries config replies =
             (Returned (Some j), map (backoff_at config) [0..<k], Suc k))
       \<and> (\<forall>k status body. k < nat (max_retries config) \<and> (\<forall>i<k. retryable (replies i))
              \<and> replies k = Http status body
              \<and> status \<noteq> 200 \<and> status \<noteq> 429 \<and> status \<noteq> 503 \<longrightarrow>
           get_json_with_retries config replies =
             (Returned None, map (backoff_at config) [0..<k], Suc k))
       \<and> ((\<forall>i<nat (max_retries config). retryable (replies i)) \<longrightarrow>
           get_json_with_retries config replies =
             (Returned None, map (backoff_at config) [0..<nat (max_retries config)],
              nat (max_retries config)))"
proof -
  define n where "n = nat (max_retries config)"
  define b0 where "b0 = initial_backoff_seconds config"
  have prefix: "attempts_loop n replies 0 b0 =
      (case attempts_loop (n - k) replies k ((next_backoff ^^ k) b0) of
         (res, sleeps, gets) \<Rightarrow> (res, map (backoff_at config) [0..<k] @ sleeps, gets))"
    if "k \<le> n" and "\<forall>i<k. retryable (replies i)" for k
    using attempts_loop_prefix [of k n replies 0 b0] that
    by (simp add: backoff_at_def [abs_def] b0_def)
  have ok: "get_json_with_retries config replies =
      (Returned (Some j), map (backoff_at config) [0..<k], Suc k)"
    if "k < n" and "\<forall>i<k. retryable (replies i)" and "replies k = Http 200 (Json j)" for k j
  proof -
    from that obtain m where m: "n - k = Suc m" by (cases "n - k") auto
    from that have "k \<le> n" by simp
    from prefix [OF this that(2)] m that(3) show ?thesis
      by (simp add: get_json_with_retries_def n_def b0_def)
  qed
  have fatal: "get_json_with_retries config replies =
      (Returned None, map (backoff_at config) [0..<k], Suc k)"
    if "k < n" and "\<forall>i<k. retryable (replies i)" and "replies k = Http status body"
      and "status \<noteq> 200" and "status \<noteq> 429" and "status \<noteq> 503" for k status body
  proof -
    from that obtain m where m: "n - k = Suc m" by (cases "n - k") auto
    from that have "k \<le> n" by simp
    from prefix [OF this that(2)] m that(3-6) show ?thesis
      by (simp add: get_json_with_retries_def n_def b0_def)
  qed
  have exhausted: "get_json_with_retries config replies =
      (Returned None, map (backoff_at config) [0..<n], n)"
    if "\<forall>i<n. retryable (replies i)"
    using prefix [of n] that
    by (simp add: get_json_with_retries_def n_def b0_def)
  from ok fatal exhausted show ?thesis
    unfolding n_def by blast
qed

theorem retry_policy_witness:
  "get_json_with_retries \<lparr>max_retries = 3, initial_backoff_seconds = 200\<rparr>
     (\<lambda>i. if i = 0 then Http 429 (Json 0) else if i = 1 then Client_error else Http 200 (Json (7::nat)))
     = (Returned (Some 7), [200, 300], 3)
   \<and> get_json_with_retries \<lparr>max_retries = 3, initial_backoff_seconds = 200\<rparr>
     (\<lambda>i. if i = 0 then Http 503 (Json 0) else Http 404 (Json (7::nat)))
     = (Returned None, [200], 2)
   \<and> get_json_with_retries \<lparr>max_retries = 3, initial_backoff_seconds = 200\<rparr>
     (\<lambda>i. Client_error :: nat reply)
     = (Returned None, [200, 300, 300], 3)"
proof (intro conjI)
  let ?c = "\<lparr>max_retries = 3, initial_backoff_seconds = 200\<rparr>"
  let ?r1 = "\<lambda>i::nat. if i = 0 then Http 429 (Json 0) else if i = 1 then Client_error else Http 200 (Json (7::nat))"
  have "get_json_with_retries ?c ?r1 = (Returned (Some 7), map (backoff_at ?c) [0..<2], Suc 2)"
    by (rule retry_policy [of ?c ?r1, THEN conjunct1, rule_format, of 2 7])
       (simp add: retryable_def less_Suc_eq numeral_2_eq_2)
  then show "get_json_with_retries ?c ?r1 = (Returned (Some 7), [200, 300], 3)"
    by (simp add: backoff_at_def next_backoff_def upt_rec numeral_2_eq_2)
next
  let ?c = "\<lparr>max_retries = 3, initial_backoff_seconds = 200\<rparr>"
  let ?r2 = "\<lambda>i::nat. if i = 0 then Http 503 (Json 0) else Http 404 (Json (7::nat))"
  have "get_json_with_retries ?c ?r2 = (Returned None, map (backoff_at ?c) [0..<1], Suc 1)"
    by (rule retry_policy [of ?c ?r2, THEN conjunct2, THEN conjunct1, rule_format, of 1 404 "Json 7"])
       (simp add: retryable_def)
  then show "get_json_with_retries ?c ?r2 = (Returned None, [200], 2)"
    by (simp add: backoff_at_def next_backoff_def)
next
  let ?c = "\<lparr>max_retries = 3, initial_backoff_seconds = 200\<rparr>"
  let ?r3 = "\<lambda>i::nat. Client_error :: nat reply"
  have "get_json_with_retries ?c ?r3 =
      (Returned None, map (backoff_at ?c) [0..<nat (max_retries ?c)], nat (max_retries ?c))"
    by (rule retry_policy [of ?c ?r3, THEN conjunct2, THEN conjunct2, rule_format])
       (simp add: retryable_def)
  then show "get_json_with_retries ?c ?r3 = (Returned None, [200, 300, 300], 3)"
    by (simp add: backoff_at_def next_backoff_def upt_rec numeral_3_eq_3)
qed


section \<open>Splitting off bound water: \<open>split_hydrate_formula\<close>\<close>

text \<open>
  \<open>s.split(sep)\<close> for a one-character separator, and \<open>s.replace(old, new)\<close> for
  one-character \<open>old\<close> and \<open>new\<close>.
\<close>

fun split_on :: "nat \<Rightarrow> str \<Rightarrow> str list" where
  "split_on sep [] = [[]]"
| "split_on sep (c # cs) =
     (if c = sep then [] # split_on sep cs
      else (case split_on sep cs of p # ps \<Rightarrow> (c # p) # ps | [] \<Rightarrow> [[c]]))"

definition replace_cp :: "nat \<Rightarrow> nat \<Rightarrow> str \<Rightarrow> str" where
  "replace_cp old new s = map (\<lambda>c. if c = old then new else c) s"

text \<open>
  \<open>re.search(r"(?:(\d+))?H2O\b", compact)\<close>.  At a given position the optional group takes
  the whole run of digits there (with fewer digits the next character would be a digit, not
  \<open>H\<close>); \<open>H2O\<close> must follow, and then the end of the string or a non-word character.
  The search returns the leftmost position that matches.  The result is \<open>None\<close> for no
  match, otherwise \<open>Some g\<close> with \<open>g\<close> the digits of group 1, if the group took part.
\<close>

definition h2o_at_boundary :: "str \<Rightarrow> bool" where
  "h2o_at_boundary s \<longleftrightarrow>
     take 3 s = u ''H2O'' \<and> (case drop 3 s of [] \<Rightarrow> True | c # _ \<Rightarrow> \<not> is_word c)"

definition match_water_here :: "str \<Rightarrow> str option option" where
  "match_water_here s =
     (let ds = takeWhile is_digit s
      in if h2o_at_boundary (dropWhile is_digit s)
         then Some (if ds = [] then None else Some ds)
         else None)"

fun search_water :: "str \<Rightarrow> str option option" where
  "search_water [] = match_water_here []"
| "search_water (c # cs) =
     (case match_water_here (c # cs) of Some g \<Rightarrow> Some g | None \<Rightarrow> search_water cs)"

text \<open>The loop over \<open>parts[1:]\<close>: the first part that matches decides the count.\<close>

fun water_count_in :: "str list \<Rightarrow> nat" where
  "water_count_in [] = 0"
| "water_count_in (part # parts) =
     (case search_water (filter (\<lambda>c. c \<noteq> 32) part) of
        Some g \<Rightarrow> (case g of Some ds \<Rightarrow> int_of_digits ds | None \<Rightarrow> 1)
      | None \<Rightarrow> water_count_in parts)"

definition split_hydrate_formula :: "str \<Rightarrow> str \<times> nat" where
  "split_hydrate_formula formula =
     (if formula = [] then ([], 0)
      else
        let s = replace_cp 46 bullet (replace_cp middot bullet (strip formula))
        in if bullet \<notin> set s then (s, 0)
           else
             (case filter (\<lambda>p. p \<noteq> []) (map strip (split_on bullet s)) of
                [] \<Rightarrow> (s, 0)
              | base_formula # parts \<Rightarrow> (base_formula, water_count_in parts)))"

text \<open>
  The builder has its own \<open>split_hydrate_formula\<close> (\<open>step_04_build_parquet\<close>), here
  \<open>build_split_hydrate_formula\<close>.  It replaces only the middle dot, splits at the first
  bullet, and matches \<open>^\s*(\d+)\s*H2O\s*$\<close> and then \<open>H2O\<close> in full, both ignoring case.
\<close>

definition h2o_ignorecase :: "str \<Rightarrow> bool" where
  "h2o_ignorecase s \<longleftrightarrow> lower s = u ''h2o''"

definition match_counted_water :: "str \<Rightarrow> str option" where
  "match_counted_water right =
     (let a = dropWhile is_space right;
          ds = takeWhile is_digit a;
          b = dropWhile is_space (dropWhile is_digit a)
      in if ds \<noteq> [] \<and> h2o_ignorecase (take 3 b) \<and> list_all is_space (drop 3 b)
         then Some ds else None)"

definition build_split_hydrate_formula :: "str \<Rightarrow> str \<times> nat" where
  "build_split_hydrate_formula formula =
     (if formula = [] then ([], 0)
      else
        let s = replace_cp middot bullet formula
        in if bullet \<notin> set s then (strip s, 0)
           else
             let left = strip (takeWhile (\<lambda>c. c \<noteq> bullet) s);
                 right = strip (tl (dropWhile (\<lambda>c. c \<noteq> bullet) s))
             in case match_counted_water right of
                  Some ds \<Rightarrow> (left, int_of_digits ds)
                | None \<Rightarrow> if h2o_ignorecase right then (left, 1) else (left, 0))"

subsection \<open>Stripping, splitting and decimal digits\<close>

lemma dropWhile_id: "xs \<noteq> [] \<Longrightarrow> \<not> P (hd xs) \<Longrightarrow> dropWhile P xs = xs"
  by (cases xs) auto

lemma strip_sandwich:
  assumes "xs \<noteq> []" and "\<not> is_space (hd xs)" and "\<not> is_space (last xs)"
    and "list_all is_space a" and "list_all is_space b"
  shows "strip (a @ xs @ b) = xs"
proof -
  have "dropWhile is_space (a @ xs @ b) = xs @ b"
    using assms by (cases xs) (auto simp: dropWhile_append2 list_all_iff)
  moreover have "dropWhile is_space (rev b @ rev xs) = dropWhile is_space (rev xs)"
    using assms by (intro dropWhile_append2) (simp add: list_all_iff)
  moreover have "dropWhile is_space (rev xs) = rev xs"
    using assms by (intro dropWhile_id) (simp_all add: hd_rev)
  ultimately show ?thesis
    by (simp add: strip_def)
qed

lemma strip_fixed_ends:
  assumes "strip s = s" and "s \<noteq> []"
  shows "\<not> is_space (hd s) \<and> \<not> is_space (last s)"
proof -
  have len: "length (dropWhile is_space (rev (dropWhile is_space s))) = length s"
    using arg_cong [OF assms(1), of length] by (simp add: strip_def)
  have le1: "length (dropWhile is_space (rev (dropWhile is_space s))) \<le> length (dropWhile is_space s)"
    using length_dropWhile_le [of is_space "rev (dropWhile is_space s)"] by simp
  have le2: "length (dropWhile is_space s) \<le> length s"
    by (rule length_dropWhile_le)
  have front: "\<not> is_space (hd s)"
  proof
    assume "is_space (hd s)"
    with assms(2) have "length (dropWhile is_space s) < length s"
      using length_dropWhile_le [of is_space "tl s"] by (cases s) (auto simp: less_Suc_eq_le)
    with len le1 show False by simp
  qed
  with assms(2) have d1: "dropWhile is_space s = s"
    by (rule dropWhile_id)
  have "\<not> is_space (last s)"
  proof
    assume "is_space (last s)"
    with assms(2) have "length (dropWhile is_space (rev s)) < length (rev s)"
      using length_dropWhile_le [of is_space "tl (rev s)"]
      by (cases "rev s") (auto simp: less_Suc_eq_le last_rev [symmetric] simp del: last_rev)
    with len d1 show False by simp
  qed
  with front show ?thesis ..
qed

lemma split_on_none: "sep \<notin> set a \<Longrightarrow> split_on sep a = [a]"
  by (induction a) auto

lemma split_on_first: "sep \<notin> set a \<Longrightarrow> split_on sep (a @ sep # b) = a # split_on sep b"
  by (induction a) auto

lemma dec_nonempty: "dec n \<noteq> []"
  by (subst dec.simps) simp

lemma dec_digits: "list_all is_digit (dec n)"
proof (induction n rule: dec.induct)
  case (1 n)
  show ?case
  proof (cases "n < 10")
    case True
    then show ?thesis by (subst dec.simps) (simp add: is_digit_def)
  next
    case False
    have "n mod 10 < 10" by simp
    then have "is_digit (48 + n mod 10)" unfolding is_digit_def by linarith
    with False 1 show ?thesis by (subst dec.simps) simp
  qed
qed

lemma int_of_digits_snoc: "int_of_digits (ds @ [d]) = 10 * int_of_digits ds + (d - 48)"
  by (simp add: int_of_digits_def)

lemma int_of_digits_dec: "int_of_digits (dec n) = n"
proof (induction n rule: dec.induct)
  case (1 n)
  show ?case
  proof (cases "n < 10")
    case True
    then show ?thesis by (subst dec.simps) (simp add: int_of_digits_def)
  next
    case False
    with 1 show ?thesis by (subst dec.simps) (simp add: int_of_digits_snoc)
  qed
qed


lemma replace_cp_absent: "old \<notin> set s \<Longrightarrow> replace_cp old new s = s"
  by (induction s) (auto simp: replace_cp_def)

lemma replace_cp_append: "replace_cp old new (a @ b) = replace_cp old new a @ replace_cp old new b"
  by (simp add: replace_cp_def)

lemma space_not_marker: "is_space c \<Longrightarrow> c \<noteq> bullet \<and> c \<noteq> middot \<and> c \<noteq> 46"
  by (auto simp: is_space_def bullet_def middot_def)

lemma spaces_no_marker:
  "list_all is_space ws \<Longrightarrow> bullet \<notin> set ws \<and> middot \<notin> set ws \<and> 46 \<notin> set ws"
  using space_not_marker by (auto simp: list_all_iff)

lemma markers_to_bullet:
  assumes "sep = bullet \<or> sep = middot \<or> sep = 46"
  shows "replace_cp 46 bullet (replace_cp middot bullet [sep]) = [bullet]"
  using assms by (auto simp: replace_cp_def bullet_def middot_def)

text \<open>The shape of the input of C5 up to the text after the marker.\<close>

lemma split_hydrate_formula_marked:
  assumes base: "base \<noteq> []" "strip base = base"
      "bullet \<notin> set base" "middot \<notin> set base" "46 \<notin> set base"
    and sep: "sep = bullet \<or> sep = middot \<or> sep = 46"
    and ws: "list_all is_space ws1" "list_all is_space ws2" "list_all is_space ws4"
    and w: "w \<noteq> []" "\<not> is_space (hd w)" "\<not> is_space (last w)"
      "bullet \<notin> set w" "middot \<notin> set w" "46 \<notin> set w"
  shows "split_hydrate_formula (base @ ws1 @ [sep] @ ws2 @ w @ ws4) = (base, water_count_in [w])"
proof -
  let ?core = "base @ ws1 @ [sep] @ ws2 @ w"
  from strip_fixed_ends [OF base(2) base(1)]
  have ends: "\<not> is_space (hd base)" "\<not> is_space (last base)" by simp_all
  have core: "?core \<noteq> []" "\<not> is_space (hd ?core)" "\<not> is_space (last ?core)"
    using base(1) ends w by simp_all
  have "strip ([] @ ?core @ ws4) = ?core"
    by (rule strip_sandwich [OF core]) (simp_all add: ws)
  then have stripped: "strip (base @ ws1 @ [sep] @ ws2 @ w @ ws4) = ?core"
    by simp
  have keep: "replace_cp 46 bullet (replace_cp middot bullet x) = x"
    if "bullet \<notin> set x \<and> middot \<notin> set x \<and> 46 \<notin> set x" for x
    using that by (simp add: replace_cp_absent)
  have replaced: "replace_cp 46 bullet (replace_cp middot bullet ?core)
      = base @ ws1 @ [bullet] @ ws2 @ w"
    using base w
    by (simp only: replace_cp_append markers_to_bullet [OF sep]
        keep [OF spaces_no_marker [OF ws(1)]] keep [OF spaces_no_marker [OF ws(2)]]
        keep [of base] keep [of w] simp_thms)
  have parts: "split_on bullet (base @ ws1 @ [bullet] @ ws2 @ w) = [base @ ws1, ws2 @ w]"
    using base w spaces_no_marker [OF ws(1)] spaces_no_marker [OF ws(2)]
      split_on_first [of bullet "base @ ws1" "ws2 @ w"]
    by (simp add: split_on_none)
  have s1: "strip (base @ ws1) = base"
    using strip_sandwich [of base "[]" ws1] base(1) ends ws(1) by simp
  have s2: "strip (ws2 @ w) = w"
    using strip_sandwich [of w ws2 "[]"] w ws(2) by simp
  show ?thesis
    unfolding split_hydrate_formula_def stripped replaced Let_def parts
    using base(1) w(1) by (simp add: s1 s2)
qed

lemma takeWhile_digits_then:
  "list_all is_digit ds \<Longrightarrow> (rest = [] \<or> \<not> is_digit (hd rest)) \<Longrightarrow>
   takeWhile is_digit (ds @ rest) = ds \<and> dropWhile is_digit (ds @ rest) = rest"
  by (cases rest) (auto simp: list_all_iff takeWhile_append2 dropWhile_append2)

lemma water_count_counted:
  assumes "list_all (\<lambda>c. c = 32) sp"
  shows "water_count_in [dec n @ sp @ u ''H2O''] = n"
proof -
  have no32: "filter (\<lambda>c. c \<noteq> 32) (dec n) = dec n"
    using dec_digits [of n] by (auto simp: list_all_iff is_digit_def intro!: filter_True)
  have sp: "filter (\<lambda>c. c \<noteq> 32) sp = []"
    using assms by (auto simp: list_all_iff filter_empty_conv)
  have compact: "filter (\<lambda>c. c \<noteq> 32) (dec n @ sp @ u ''H2O'') = dec n @ u ''H2O''"
    by (simp add: no32 sp) (simp add: u_def)
  have td: "takeWhile is_digit (dec n @ u ''H2O'') = dec n \<and>
            dropWhile is_digit (dec n @ u ''H2O'') = u ''H2O''"
    by (rule takeWhile_digits_then [OF dec_digits]) (simp add: u_def is_digit_def)
  have here: "match_water_here (dec n @ u ''H2O'') = Some (Some (dec n))"
    using dec_nonempty [of n]
    by (simp add: match_water_here_def td h2o_at_boundary_def) (simp add: u_def)
  obtain c cs where cs: "dec n @ u ''H2O'' = c # cs"
    using dec_nonempty [of n] by (cases "dec n @ u ''H2O''") auto
  have "search_water (dec n @ u ''H2O'') = Some (Some (dec n))"
    unfolding cs using here [unfolded cs] by simp
  then show ?thesis
    unfolding water_count_in.simps compact by (simp add: int_of_digits_dec)
qed

lemma water_count_single: "water_count_in [u ''H2O''] = 1"
  by (simp add: u_def match_water_here_def h2o_at_boundary_def is_digit_def)

lemma split_hydrate_formula_roundtrip:
  assumes base: "base \<noteq> []" "strip base = base"
      "bullet \<notin> set base" "middot \<notin> set base" "46 \<notin> set base"
    and sep: "sep = bullet \<or> sep = middot \<or> sep = 46"
    and ws: "list_all is_space ws1" "list_all is_space ws2" "list_all is_space ws4"
    and sp: "list_all (\<lambda>c. c = 32) sp"
  shows "split_hydrate_formula (base @ ws1 @ [sep] @ ws2 @ dec n @ sp @ u ''H2O'' @ ws4) = (base, n)
       \<and> split_hydrate_formula (base @ ws1 @ [sep] @ ws2 @ u ''H2O'' @ ws4) = (base, 1)"
proof
  let ?w = "dec n @ sp @ u ''H2O''"
  have d: "\<not> is_space (hd (dec n))" "\<forall>c\<in>set (dec n). c \<noteq> bullet \<and> c \<noteq> middot \<and> c \<noteq> 46"
      "\<forall>c\<in>set sp. c \<noteq> bullet \<and> c \<noteq> middot \<and> c \<noteq> 46"
    using dec_digits [of n] dec_nonempty [of n] sp
    by (auto simp: list_all_iff is_digit_def is_space_def bullet_def middot_def
        dest!: hd_in_set)
  have w: "?w \<noteq> []" "\<not> is_space (hd ?w)" "\<not> is_space (last ?w)"
      "bullet \<notin> set ?w" "middot \<notin> set ?w" "46 \<notin> set ?w"
    using d dec_nonempty [of n]
    by (auto simp: u_def is_space_def bullet_def middot_def)
  from split_hydrate_formula_marked [OF base sep ws w] water_count_counted [OF sp]
  show "split_hydrate_formula (base @ ws1 @ [sep] @ ws2 @ dec n @ sp @ u ''H2O'' @ ws4) = (base, n)"
    by simp
next
  let ?w = "u ''H2O''"
  have w: "?w \<noteq> []" "\<not> is_space (hd ?w)" "\<not> is_space (last ?w)"
      "bullet \<notin> set ?w" "middot \<notin> set ?w" "46 \<notin> set ?w"
    by (auto simp: u_def is_space_def bullet_def middot_def)
  from split_hydrate_formula_marked [OF base sep ws w] water_count_single
  show "split_hydrate_formula (base @ ws1 @ [sep] @ ws2 @ u ''H2O'' @ ws4) = (base, 1)"
    by simp
qed


lemma h2o_ignorecase_shape:
  assumes "h2o_ignorecase w"
  obtains a c where "w = [a, 50, c]" and "a = 72 \<or> a = 104" and "c = 79 \<or> c = 111"
proof -
  from assms have m: "map lower_cp w = [104, 50, 111]"
    by (simp add: h2o_ignorecase_def lower_def u_def)
  then obtain a b c where w: "w = [a, b, c]"
    by (auto simp: map_eq_Cons_conv)
  with m have "lower_cp a = 104" "lower_cp b = 50" "lower_cp c = 111" by simp_all
  then have "a = 72 \<or> a = 104" "b = 50" "c = 79 \<or> c = 111"
    by (auto simp: lower_cp_def is_upper_def split: if_splits)
  with w that show thesis by blast
qed

lemma build_split_hydrate_formula_marked:
  assumes base: "base \<noteq> []" "strip base = base" "bullet \<notin> set base" "middot \<notin> set base"
    and sep: "sep = bullet \<or> sep = middot"
    and ws: "list_all is_space ws1" "list_all is_space ws2" "list_all is_space ws4"
    and r: "r \<noteq> []" "\<not> is_space (hd r)" "\<not> is_space (last r)"
      "bullet \<notin> set r" "middot \<notin> set r"
  shows "build_split_hydrate_formula (base @ ws1 @ [sep] @ ws2 @ r @ ws4) =
     (case match_counted_water r of
        Some ds \<Rightarrow> (base, int_of_digits ds)
      | None \<Rightarrow> if h2o_ignorecase r then (base, 1) else (base, 0))"
proof -
  from strip_fixed_ends [OF base(2) base(1)]
  have ends: "\<not> is_space (hd base)" "\<not> is_space (last base)" by simp_all
  have keep: "replace_cp middot bullet x = x" if "middot \<notin> set x" for x
    using that by (rule replace_cp_absent)
  have one: "replace_cp middot bullet [sep] = [bullet]"
    using sep by (auto simp: replace_cp_def)
  have nm: "middot \<notin> set ws1" "middot \<notin> set ws2" "middot \<notin> set ws4"
      "bullet \<notin> set ws1"
    using spaces_no_marker ws by blast+
  have replaced: "replace_cp middot bullet (base @ ws1 @ [sep] @ ws2 @ r @ ws4)
      = (base @ ws1) @ bullet # (ws2 @ r @ ws4)"
    by (simp only: replace_cp_append one keep [OF base(4)] keep [OF nm(1)] keep [OF nm(2)]
        keep [OF nm(3)] keep [OF r(5)]) simp
  have nb: "\<forall>c\<in>set (base @ ws1). c \<noteq> bullet"
    using base(3) nm(4) by auto
  have left: "takeWhile (\<lambda>c. c \<noteq> bullet) ((base @ ws1) @ bullet # (ws2 @ r @ ws4)) = base @ ws1"
    using nb by (simp only: takeWhile_tail [of "\<lambda>c. c \<noteq> bullet" bullet, simplified])
      (simp add: takeWhile_eq_all_conv)
  have right: "tl (dropWhile (\<lambda>c. c \<noteq> bullet) ((base @ ws1) @ bullet # (ws2 @ r @ ws4)))
      = ws2 @ r @ ws4"
    using nb dropWhile_append2 [of "base @ ws1" "\<lambda>c. c \<noteq> bullet" "bullet # (ws2 @ r @ ws4)"]
    by simp
  have s1: "strip (base @ ws1) = base"
    using strip_sandwich [of base "[]" ws1] base(1) ends ws(1) by simp
  have s2: "strip (ws2 @ r @ ws4) = r"
    using strip_sandwich [of r ws2 ws4] r ws by simp
  show ?thesis
    unfolding build_split_hydrate_formula_def replaced Let_def left right s1 s2
    by (simp split: option.splits)
qed

lemma build_split_hydrate_formula_roundtrip:
  assumes base: "base \<noteq> []" "strip base = base" "bullet \<notin> set base" "middot \<notin> set base"
    and sep: "sep = bullet \<or> sep = middot"
    and ws: "list_all is_space ws1" "list_all is_space ws2" "list_all is_space ws4"
    and ws3: "list_all is_space ws3"
    and w: "h2o_ignorecase w"
  shows "build_split_hydrate_formula (base @ ws1 @ [sep] @ ws2 @ dec n @ ws3 @ w @ ws4) = (base, n)
       \<and> build_split_hydrate_formula (base @ ws1 @ [sep] @ ws2 @ w @ ws4) = (base, 1)"
proof
  from w obtain a c where wabc: "w = [a, 50, c]" "a = 72 \<or> a = 104" "c = 79 \<or> c = 111"
    by (rule h2o_ignorecase_shape)
  have wfacts: "w \<noteq> []" "\<not> is_space (hd w)" "\<not> is_space (last w)" "\<not> is_digit (hd w)"
      "bullet \<notin> set w" "middot \<notin> set w" "take 3 w = w" "drop 3 w = []"
    using wabc by (auto simp: is_space_def is_digit_def bullet_def middot_def)
  have dfacts: "\<not> is_space (hd (dec n))" "bullet \<notin> set (dec n)" "middot \<notin> set (dec n)"
    using dec_digits [of n] dec_nonempty [of n]
    by (auto simp: list_all_iff is_digit_def is_space_def bullet_def middot_def dest!: hd_in_set)
  have sd: "\<not> is_digit c" if "is_space c" for c
    using that by (auto simp: is_space_def is_digit_def)
  let ?r = "dec n @ ws3 @ w"
  have r: "?r \<noteq> []" "\<not> is_space (hd ?r)" "\<not> is_space (last ?r)"
      "bullet \<notin> set ?r" "middot \<notin> set ?r"
    using wfacts dfacts dec_nonempty [of n] spaces_no_marker [OF ws3] by simp_all
  have a: "dropWhile is_space ?r = ?r"
    using r by (intro dropWhile_id)
  have "ws3 @ w = [] \<or> \<not> is_digit (hd (ws3 @ w))"
    using wfacts ws3 sd by (cases ws3) (auto simp: list_all_iff)
  from takeWhile_digits_then [OF dec_digits this]
  have td: "takeWhile is_digit ?r = dec n" "dropWhile is_digit ?r = ws3 @ w"
    by simp_all
  have b: "dropWhile is_space (ws3 @ w) = w"
    using ws3 wfacts dropWhile_id [of w is_space] by (simp add: dropWhile_append2 list_all_iff)
  have m: "match_counted_water ?r = Some (dec n)"
    unfolding match_counted_water_def a td b Let_def
    using wfacts w dec_nonempty [of n] by simp
  from build_split_hydrate_formula_marked [OF base sep ws r]
  show "build_split_hydrate_formula (base @ ws1 @ [sep] @ ws2 @ dec n @ ws3 @ w @ ws4) = (base, n)"
    by (simp add: m int_of_digits_dec)
  have tw: "takeWhile is_digit w = []"
    using wfacts by (cases w) auto
  have m1: "match_counted_water w = None"
    using dropWhile_id [of w is_space] wfacts
    by (simp add: match_counted_water_def Let_def tw)
  from build_split_hydrate_formula_marked [OF base sep ws wfacts(1,2,3,5,6)]
  show "build_split_hydrate_formula (base @ ws1 @ [sep] @ ws2 @ w @ ws4) = (base, 1)"
    by (simp add: m1 w)
qed


subsection \<open>The round trip\<close>

text \<open>
  C5, as the two functions implement it.  Take a non-empty base without bullet or middle
  dot and without whitespace at either end, whitespace \<open>ws1\<close>, \<open>ws2\<close>, \<open>ws3\<close>, \<open>ws4\<close>,
  and a count \<open>n\<close>.

  \<^item> \<open>utils.split_hydrate_formula\<close>: if the base has no full stop either, the marker is a
    bullet, a middle dot or a full stop, the text between the number and the water is
    made of plain spaces, and the water is spelled \<open>H2O\<close> in upper case, the result is
    \<open>(base, n)\<close>, and \<open>(base, 1)\<close> when the number is left out.
  \<^item> The builder's \<open>split_hydrate_formula\<close>: if the marker is a bullet or a middle dot
    and the water is spelled \<open>H2O\<close> in any letter case, the result is \<open>(base, n)\<close>, and
    \<open>(base, 1)\<close> when the number is left out.
\<close>

theorem split_hydrate_roundtrip:
  assumes "base \<noteq> []" and "strip base = base"
    and "bullet \<notin> set base" and "middot \<notin> set base"
    and "list_all is_space ws1" and "list_all is_space ws2"
    and "list_all is_space ws3" and "list_all is_space ws4"
  shows "(46 \<notin> set base \<and> (sep = bullet \<or> sep = middot \<or> sep = 46)
            \<and> list_all (\<lambda>c. c = 32) ws3 \<longrightarrow>
          split_hydrate_formula (base @ ws1 @ [sep] @ ws2 @ dec n @ ws3 @ u ''H2O'' @ ws4)
            = (base, n)
          \<and> split_hydrate_formula (base @ ws1 @ [sep] @ ws2 @ u ''H2O'' @ ws4) = (base, 1))
       \<and> ((sep = bullet \<or> sep = middot) \<and> h2o_ignorecase w \<longrightarrow>
          build_split_hydrate_formula (base @ ws1 @ [sep] @ ws2 @ dec n @ ws3 @ w @ ws4)
            = (base, n)
          \<and> build_split_hydrate_formula (base @ ws1 @ [sep] @ ws2 @ w @ ws4) = (base, 1))"
proof (intro conjI impI)
  assume h: "46 \<notin> set base \<and> (sep = bullet \<or> sep = middot \<or> sep = 46)
      \<and> list_all (\<lambda>c. c = 32) ws3"
  then have "46 \<notin> set base" and "sep = bullet \<or> sep = middot \<or> sep = 46"
    and "list_all (\<lambda>c. c = 32) ws3" by simp_all
  from split_hydrate_formula_roundtrip [OF assms(1-4) this(1,2) assms(5,6,8) this(3), of n]
  show "split_hydrate_formula (base @ ws1 @ [sep] @ ws2 @ dec n @ ws3 @ u ''H2O'' @ ws4)
            = (base, n)"
    and "split_hydrate_formula (base @ ws1 @ [sep] @ ws2 @ u ''H2O'' @ ws4) = (base, 1)"
    by simp_all
next
  assume h: "(sep = bullet \<or> sep = middot) \<and> h2o_ignorecase w"
  then have "sep = bullet \<or> sep = middot" and "h2o_ignorecase w" by simp_all
  from build_split_hydrate_formula_roundtrip [OF assms(1-4) this(1) assms(5,6,8,7) this(2), of n]
  show "build_split_hydrate_formula (base @ ws1 @ [sep] @ ws2 @ dec n @ ws3 @ w @ ws4)
            = (base, n)"
    and "build_split_hydrate_formula (base @ ws1 @ [sep] @ ws2 @ w @ ws4) = (base, 1)"
    by simp_all
qed

theorem split_hydrate_roundtrip_witness:
  "split_hydrate_formula (u ''CoCl2'' @ u '' '' @ [46] @ u '' '' @ dec 12 @ u '' '' @ u ''H2O'' @ [])
     = (u ''CoCl2'', 12)
   \<and> split_hydrate_formula (u ''CoCl2'' @ u '' '' @ [46] @ u '' '' @ u ''H2O'' @ [])
     = (u ''CoCl2'', 1)
   \<and> build_split_hydrate_formula
        (u ''CoCl2'' @ u '' '' @ [middot] @ u '' '' @ dec 12 @ u '' '' @ u ''h2o'' @ [])
     = (u ''CoCl2'', 12)
   \<and> build_split_hydrate_formula (u ''CoCl2'' @ u '' '' @ [middot] @ u '' '' @ u ''h2o'' @ [])
     = (u ''CoCl2'', 1)"
proof -
  have base: "u ''CoCl2'' \<noteq> []" "strip (u ''CoCl2'') = u ''CoCl2''"
      "bullet \<notin> set (u ''CoCl2'')" "middot \<notin> set (u ''CoCl2'')"
    by (simp_all add: u_def strip_def is_space_def bullet_def middot_def)
  have ws: "list_all is_space (u '' '')" "list_all is_space []"
    by (simp_all add: u_def is_space_def)
  have a: "46 \<notin> set (u ''CoCl2'') \<and> ((46::nat) = bullet \<or> 46 = middot \<or> (46::nat) = 46)
      \<and> list_all (\<lambda>c. c = 32) (u '' '')"
    by (simp add: u_def)
  have b: "(middot = bullet \<or> middot = middot) \<and> h2o_ignorecase (u ''h2o'')"
    by (simp add: h2o_ignorecase_def lower_def lower_cp_def is_upper_def u_def)
  note utils = split_hydrate_roundtrip [where sep = 46 and n = 12,
      OF base ws(1) ws(1) ws(1) ws(2), THEN conjunct1, rule_format, OF a]
  note build = split_hydrate_roundtrip [where sep = middot and n = 12 and w = "u ''h2o''",
      OF base ws(1) ws(1) ws(1) ws(2), THEN conjunct2, rule_format, OF b]
  from utils build show ?thesis by simp
qed

text \<open>
  C5 as stated fails in both functions.  \<open>utils.split_hydrate_formula\<close> matches \<open>H2O\<close> in
  upper case only, so \<open>CoCl2\<bullet>6h2o\<close> loses its water; it removes only plain spaces
  inside the part, so a tab between \<open>6\<close> and \<open>H2O\<close> gives the count 1.  The builder's
  function does not know the full stop as a marker.
\<close>

theorem split_hydrate_counterexample:
  "split_hydrate_formula (u ''CoCl2'' @ [bullet] @ u ''6h2o'') = (u ''CoCl2'', 0)
   \<and> split_hydrate_formula (u ''CoCl2'' @ [bullet] @ u ''6h2o'') \<noteq> (u ''CoCl2'', 6)
   \<and> split_hydrate_formula (u ''CoCl2'' @ [bullet] @ [54, 9] @ u ''H2O'') = (u ''CoCl2'', 1)
   \<and> build_split_hydrate_formula (u ''CoCl2.6H2O'') = (u ''CoCl2.6H2O'', 0)"
  by (simp add: split_hydrate_formula_def build_split_hydrate_formula_def u_def bullet_def
      middot_def strip_def is_space_def replace_cp_def match_water_here_def h2o_at_boundary_def
      is_digit_def is_word_def is_upper_def is_lower_def int_of_digits_def)



section \<open>Diagnosing an unsolvable medium: \<open>medium_optimizer\<close>\<close>

text \<open>\<open>sep.join(parts)\<close>.\<close>

fun join :: "str \<Rightarrow> str list \<Rightarrow> str" where
  "join sep [] = []"
| "join sep [x] = x"
| "join sep (x # y # ys) = x @ sep @ join sep (y # ys)"

text \<open>
  The dataclasses of \<open>types.py\<close>.  Python floats are modelled as real numbers: rounding,
  infinities and NaN are left out, except that a missing molar mass (NaN in the \<open>MW\<close>
  column) is \<open>None\<close>.  \<open>required_elements\<close> is a dictionary; its items are listed in
  insertion order.
\<close>

record element_requirement =
  reference_yield_g_cdw_per_g :: real
  excess_factor :: real

record medium_optimization_input =
  compound_cids :: "str list"
  max_dry_biomass_g_per_l :: real
  required_elements :: "(str \<times> element_requirement) list"

text \<open>
  A row of the resolved table, after \<open>ensure_db_schema\<close>: the optimizer reads
  \<open>PubChem CID\<close>, \<open>Formula (-H2O)\<close> and \<open>MW\<close>.
\<close>

record compound =
  pubchem_cid :: str
  formula_anhydrous :: str
  mw :: "real option"

record compound_dose =
  cid :: str
  mass_g_per_l :: real
  mol_per_l :: real

record element_match =
  element :: str
  required_mass_g_per_l :: real
  obtained_mass_g_per_l :: real
  match_percent :: real

record medium_optimization_result =
  success :: bool
  message :: str
  compound_doses :: "compound_dose list"
  element_matches :: "element_match list"
  diagnostics :: "str option"

text \<open>\<open>LpSolution\<close> of \<open>lp_solver.py\<close>.\<close>

record lp_solution =
  lp_success :: bool
  lp_message :: str
  lp_x :: "real list option"

text \<open>
  \<open>analyze_unsolvable_system\<close>.  Of \<open>selected_compounds_df\<close> it reads the element columns,
  given here as pairs of a column name and its entries.  An element is reported when it
  has no column or its column sums to 0.  Code point 39 is the apostrophe.
\<close>

definition is_missing :: "(str \<times> int list) list \<Rightarrow> str \<Rightarrow> bool" where
  "is_missing columns e \<longleftrightarrow>
     (case map_of columns e of None \<Rightarrow> True | Some col \<Rightarrow> sum_list col = 0)"

definition analyze_unsolvable_system ::
    "real list \<Rightarrow> (str \<times> int list) list \<Rightarrow> str list \<Rightarrow> str" where
  "analyze_unsolvable_system b_eq selected_compounds_df selected_elements =
     (let num_constraints = length b_eq;
          missing_elements = filter (is_missing selected_compounds_df) selected_elements;
          first_part = u ''A total of '' @ dec num_constraints
            @ u '' constraints were applied to match required elements with available compounds.'';
          message_parts =
            (if missing_elements \<noteq> [] then
               [first_part,
                if length missing_elements = 1 then
                  u ''However, the required element '' @ [39] @ hd missing_elements @ [39]
                    @ u '' is missing or not present in the provided compounds.''
                else
                  u ''However, the following '' @ dec (length missing_elements)
                    @ u '' elements are missing or not present in the provided compounds: ''
                    @ join (u '', '') missing_elements @ u ''.'',
                u ''Please ensure that the input compounds contain these missing elements or review the required constraints.'']
             else
               [first_part,
                u ''All required elements were found in the provided compounds, but the constraints could not be satisfied. ''
                  @ u ''This may be due to insufficient compound availability or conflicting constraints.''])
      in join (u '' '') message_parts)"

text \<open>
  The loop that builds \<open>requirement_rows\<close>.  \<open>molar_mass\<close> is \<open>utils.molar_mass\<close>, which
  returns 0.0 for a formula it cannot parse; the division then raises.
\<close>

fun requirement_rows ::
    "(str \<Rightarrow> real) \<Rightarrow> real \<Rightarrow> (str \<times> element_requirement) list \<Rightarrow> exn + (str \<times> real \<times> real) list" where
  "requirement_rows molar_mass biomass [] = Inr []"
| "requirement_rows molar_mass biomass ((e, req) # rest) =
     (if reference_yield_g_cdw_per_g req \<le> 0 \<or> excess_factor req \<le> 0
      then requirement_rows molar_mass biomass rest
      else
        let ref_mass = biomass / reference_yield_g_cdw_per_g req;
            required_mass = ref_mass * excess_factor req
        in if molar_mass e = 0 then Inl ZeroDivisionError
           else (case requirement_rows molar_mass biomass rest of
                   Inl err \<Rightarrow> Inl err
                 | Inr rows \<Rightarrow> Inr ((e, required_mass, required_mass / molar_mass e) # rows)))"

text \<open>
  The element columns of \<open>compounds_df\<close>: entry \<open>counts[element]\<close> of
  \<open>elemental_counts(str(row["Formula (-H2O)"]), selected_elements)\<close> for every row.  Every
  selected element is a key of \<open>counts\<close>, so the lookup cannot fail.
\<close>

definition count_of :: "str list \<Rightarrow> compound \<Rightarrow> str \<Rightarrow> int" where
  "count_of selected_elements row e =
     (case elemental_counts (formula_anhydrous row) (Some selected_elements) e of
        Some n \<Rightarrow> int n | None \<Rightarrow> 0)"

definition element_columns :: "str list \<Rightarrow> compound list \<Rightarrow> (str \<times> int list) list" where
  "element_columns selected_elements compounds_df =
     map (\<lambda>e. (e, map (\<lambda>row. count_of selected_elements row e) compounds_df)) selected_elements"

text \<open>The three failure results share their shape.\<close>

definition failure :: "str \<Rightarrow> str \<Rightarrow> medium_optimization_result" where
  "failure msg diag =
     \<lparr>success = False, message = msg, compound_doses = [], element_matches = [],
      diagnostics = Some diag\<rparr>"

text \<open>
  Doses: \<open>mol * MW\<close> per compound, kept when finite and positive, sorted by mass in
  descending order (\<open>list.sort\<close> is stable).  Element matches follow.
\<close>

definition doses_of :: "compound list \<Rightarrow> real list \<Rightarrow> compound_dose list" where
  "doses_of compounds_df mol =
     sort_key (\<lambda>d. - mass_g_per_l d)
       (concat (map (\<lambda>(row, n).
          (case mw row of
             None \<Rightarrow> []
           | Some w \<Rightarrow> if n * w > 0
                       then [\<lparr>cid = pubchem_cid row, mass_g_per_l = n * w, mol_per_l = n\<rparr>]
                       else []))
          (zip compounds_df mol)))"

definition match_of ::
    "(str \<Rightarrow> real) \<Rightarrow> (str \<times> int list) list \<Rightarrow> real list \<Rightarrow> str \<times> real \<times> real \<Rightarrow> element_match" where
  "match_of molar_mass columns mol r =
     (case r of (e, required_mass, required_mol) \<Rightarrow>
        let col = (case map_of columns e of Some c \<Rightarrow> c | None \<Rightarrow> []);
            obtained_mol = sum_list (map (\<lambda>(c, n). real_of_int c * n) (zip col mol));
            obtained_mass = obtained_mol * molar_mass e
        in \<lparr>element = e, required_mass_g_per_l = required_mass,
            obtained_mass_g_per_l = obtained_mass,
            match_percent = (if required_mass > 0 then obtained_mass / required_mass * 100 else 0)\<rparr>)"

text \<open>
  \<open>optimize_medium\<close>.  The repository and the solver are arguments, as in the source:
  \<open>get_compounds_by_cids\<close> stands for the repository call followed by
  \<open>ensure_db_schema\<close>, and may raise; \<open>solve_linear_program\<close> receives \<open>a_eq\<close> (one row per
  element), \<open>b_eq\<close> and the number of variables.
\<close>

definition optimize_medium ::
    "(str \<Rightarrow> real) \<Rightarrow> (int list list \<Rightarrow> real list \<Rightarrow> nat \<Rightarrow> lp_solution) \<Rightarrow>
     (str list \<Rightarrow> exn + compound list) \<Rightarrow> medium_optimization_input \<Rightarrow>
     exn + medium_optimization_result" where
  "optimize_medium molar_mass solve_linear_program get_compounds_by_cids medium_input =
     (case get_compounds_by_cids (compound_cids medium_input) of
        Inl err \<Rightarrow> Inl err
      | Inr compounds_df \<Rightarrow>
         if compounds_df = [] then
           Inr (failure (u ''no compounds found for provided cids'')
                  (u ''repository returned an empty dataframe''))
         else
           (case requirement_rows molar_mass (max_dry_biomass_g_per_l medium_input)
                   (required_elements medium_input) of
              Inl err \<Rightarrow> Inl err
            | Inr rows \<Rightarrow>
                if rows = [] then
                  Inr (failure (u ''no valid element requirements provided'')
                         (u ''all elements had non-positive yield or excess factor''))
                else
                  let selected_elements = map fst rows;
                      columns = element_columns selected_elements compounds_df;
                      a_eq = map snd columns;
                      b_eq = map (\<lambda>r. snd (snd r)) rows;
                      solution = solve_linear_program a_eq b_eq (length compounds_df)
                  in if \<not> lp_success solution \<or> lp_x solution = None then
                       Inr (failure (u ''optimization could not be solved: '' @ lp_message solution)
                              (analyze_unsolvable_system b_eq columns selected_elements))
                     else
                       let mol_per_l = the (lp_x solution)
                       in Inr \<lparr>success = True, message = lp_message solution,
                               compound_doses = doses_of compounds_df mol_per_l,
                               element_matches = map (match_of molar_mass columns mol_per_l) rows,
                               diagnostics = None\<rparr>))"


subsection \<open>What the diagnostics say\<close>

text \<open>
  An element is absent everywhere when its atom count is 0 in every resolved compound.  A
  text names an element when it quotes it as the one required element that is missing, or
  lists it among the missing elements.
\<close>

definition absent_everywhere :: "str list \<Rightarrow> compound list \<Rightarrow> str \<Rightarrow> bool" where
  "absent_everywhere selected_elements compounds_df e \<longleftrightarrow>
     (\<forall>row\<in>set compounds_df. count_of selected_elements row e = 0)"

definition names_element :: "str \<Rightarrow> str \<Rightarrow> bool" where
  "names_element diag e \<longleftrightarrow>
     sublist (u ''the required element '' @ [39] @ e @ [39] @ u '' is missing'') diag
     \<or> (\<exists>ms. e \<in> set ms \<and>
          sublist (u '' elements are missing or not present in the provided compounds: ''
                   @ join (u '', '') ms @ u ''.'') diag)"

text \<open>The call of the solver that \<open>optimize_medium\<close> makes.\<close>

definition solve_call ::
    "(int list list \<Rightarrow> real list \<Rightarrow> nat \<Rightarrow> lp_solution) \<Rightarrow> (str \<times> real \<times> real) list \<Rightarrow>
     compound list \<Rightarrow> lp_solution" where
  "solve_call solve_linear_program rows compounds_df =
     solve_linear_program (map snd (element_columns (map fst rows) compounds_df))
       (map (\<lambda>r. snd (snd r)) rows) (length compounds_df)"

lemma sublist_middle: "diag = ps @ xs @ ss \<Longrightarrow> sublist xs diag"
  by (auto simp: sublist_def)

lemma join_two: "join sep [a, b] = a @ sep @ b"
  by simp

lemma join_three: "join sep [a, b, c] = a @ sep @ b @ sep @ c"
  by simp

lemma analyze_states_constraints:
  "sublist (u ''A total of '' @ dec (length b_eq) @ u '' constraints were applied'')
     (analyze_unsolvable_system b_eq columns selected_elements)"
proof -
  have split: "u '' constraints were applied to match required elements with available compounds.''
      = u '' constraints were applied'' @ u '' to match required elements with available compounds.''"
    by (simp add: u_def)
  have "\<exists>ss. analyze_unsolvable_system b_eq columns selected_elements =
      [] @ (u ''A total of '' @ dec (length b_eq) @ u '' constraints were applied'') @ ss"
    unfolding analyze_unsolvable_system_def Let_def split
    by (simp only: join_two join_three if_distrib [of "join (u '' '')"] append_assoc append_Nil
        split: if_split) blast
  then show ?thesis
    by (auto intro: sublist_middle)
qed

lemma analyze_all_found:
  assumes "\<forall>e\<in>set selected_elements. \<not> is_missing columns e"
  shows "sublist (u ''All required elements were found in the provided compounds, but the constraints could not be satisfied.'')
     (analyze_unsolvable_system b_eq columns selected_elements)"
proof -
  have none: "filter (is_missing columns) selected_elements = []"
    using assms by (simp add: filter_empty_conv)
  have split: "u ''All required elements were found in the provided compounds, but the constraints could not be satisfied. ''
      = u ''All required elements were found in the provided compounds, but the constraints could not be satisfied.'' @ u '' ''"
    by (simp add: u_def)
  have "analyze_unsolvable_system b_eq columns selected_elements =
      ((u ''A total of '' @ dec (length b_eq)
         @ u '' constraints were applied to match required elements with available compounds.'')
        @ u '' '')
      @ u ''All required elements were found in the provided compounds, but the constraints could not be satisfied.''
      @ (u '' '' @ u ''This may be due to insufficient compound availability or conflicting constraints.'')"
    unfolding analyze_unsolvable_system_def Let_def none split
    by (simp only: join_two append_assoc if_False simp_thms)
  then show ?thesis
    by (rule sublist_middle)
qed

lemma sublist_join: "e \<in> set ms \<Longrightarrow> sublist e (join sep ms)"
proof (induction sep ms rule: join.induct)
  case (3 sep x y ys)
  show ?case
  proof (cases "e = x")
    case True
    then show ?thesis by simp
  next
    case False
    with 3 have "sublist e (join sep (y # ys))" by simp
    then show ?thesis
      by (metis join.simps(3) sublist_append_leftI sublist_order.order.trans append_assoc)
  qed
qed simp_all

lemma analyze_names_missing:
  assumes "e \<in> set selected_elements" and "is_missing columns e"
  shows "names_element (analyze_unsolvable_system b_eq columns selected_elements) e"
proof -
  let ?ms = "filter (is_missing columns) selected_elements"
  from assms have e: "e \<in> set ?ms" by simp
  then have ne: "?ms \<noteq> []" by (metis empty_iff list.set(1))
  show ?thesis
  proof (cases "length ?ms = 1")
    case True
    with e have hd: "hd ?ms = e"
      by (cases ?ms) auto
    have s1: "u ''However, the required element '' = u ''However, '' @ u ''the required element ''"
      and s2: "u '' is missing or not present in the provided compounds.''
          = u '' is missing'' @ u '' or not present in the provided compounds.''"
      by (simp_all add: u_def)
    have "analyze_unsolvable_system b_eq columns selected_elements =
        ((u ''A total of '' @ dec (length b_eq)
           @ u '' constraints were applied to match required elements with available compounds.'')
          @ u '' '' @ u ''However, '')
        @ (u ''the required element '' @ [39] @ e @ [39] @ u '' is missing'')
        @ (u '' or not present in the provided compounds.'' @ u '' ''
           @ u ''Please ensure that the input compounds contain these missing elements or review the required constraints.'')"
      unfolding analyze_unsolvable_system_def Let_def s1 s2
      using True ne by (simp only: join_three append_assoc if_True simp_thms hd)
    then have "sublist (u ''the required element '' @ [39] @ e @ [39] @ u '' is missing'')
        (analyze_unsolvable_system b_eq columns selected_elements)"
      by (rule sublist_middle)
    then show ?thesis
      by (simp add: names_element_def)
  next
    case False
    have "analyze_unsolvable_system b_eq columns selected_elements =
        ((u ''A total of '' @ dec (length b_eq)
           @ u '' constraints were applied to match required elements with available compounds.'')
          @ u '' '' @ u ''However, the following '' @ dec (length ?ms))
        @ (u '' elements are missing or not present in the provided compounds: ''
           @ join (u '', '') ?ms @ u ''.'')
        @ (u '' ''
           @ u ''Please ensure that the input compounds contain these missing elements or review the required constraints.'')"
      unfolding analyze_unsolvable_system_def Let_def
      using False ne by (simp only: join_three append_assoc if_True if_False simp_thms)
    then have "sublist (u '' elements are missing or not present in the provided compounds: ''
           @ join (u '', '') ?ms @ u ''.'')
        (analyze_unsolvable_system b_eq columns selected_elements)"
      by (rule sublist_middle)
    with e show ?thesis
      unfolding names_element_def by blast
  qed
qed


lemma count_of_nonneg: "0 \<le> count_of selected_elements row e"
  by (simp add: count_of_def split: option.split)

lemma is_missing_element_columns:
  assumes "e \<in> set selected_elements"
  shows "is_missing (element_columns selected_elements compounds_df) e
     \<longleftrightarrow> absent_everywhere selected_elements compounds_df e"
proof -
  have "map_of (element_columns selected_elements compounds_df) e
      = Some (map (\<lambda>row. count_of selected_elements row e) compounds_df)"
    using assms by (simp add: element_columns_def map_of_map_restrict)
  moreover have "sum_list (map (\<lambda>row. count_of selected_elements row e) compounds_df) = 0
      \<longleftrightarrow> (\<forall>row\<in>set compounds_df. count_of selected_elements row e = 0)"
    by (subst sum_list_nonneg_eq_0_iff) (auto simp: count_of_nonneg)
  ultimately show ?thesis
    by (simp add: is_missing_def absent_everywhere_def)
qed

text \<open>
  C9.  Suppose compounds were resolved, at least one requirement is valid, and the solver
  reports failure or returns no vector.  Then \<open>optimize_medium\<close> returns a result with
  \<open>success = False\<close> whose diagnostics (a) state the number of constraints, which is the
  number of valid requirements, (b) name every required element that is absent from every
  compound, and (c) say that all required elements were found but the constraints could not
  be satisfied, when no required element is absent everywhere.
\<close>

theorem optimize_medium_diagnostics:
  assumes "get_compounds_by_cids (compound_cids medium_input) = Inr compounds_df"
    and "compounds_df \<noteq> []"
    and "requirement_rows molar_mass (max_dry_biomass_g_per_l medium_input)
           (required_elements medium_input) = Inr rows"
    and "rows \<noteq> []"
    and "\<not> lp_success (solve_call solve_linear_program rows compounds_df)
         \<or> lp_x (solve_call solve_linear_program rows compounds_df) = None"
  shows "\<exists>res diag.
      optimize_medium molar_mass solve_linear_program get_compounds_by_cids medium_input = Inr res
      \<and> \<not> success res \<and> diagnostics res = Some diag
      \<and> sublist (u ''A total of '' @ dec (length rows) @ u '' constraints were applied'') diag
      \<and> (\<forall>e\<in>set (map fst rows).
            absent_everywhere (map fst rows) compounds_df e \<longrightarrow> names_element diag e)
      \<and> ((\<forall>e\<in>set (map fst rows). \<not> absent_everywhere (map fst rows) compounds_df e) \<longrightarrow>
          sublist (u ''All required elements were found in the provided compounds, but the constraints could not be satisfied.'') diag)"
proof -
  let ?sel = "map fst rows"
  let ?cols = "element_columns ?sel compounds_df"
  let ?b = "map (\<lambda>r. snd (snd r)) rows"
  let ?sol = "solve_call solve_linear_program rows compounds_df"
  let ?diag = "analyze_unsolvable_system ?b ?cols ?sel"
  let ?res = "failure (u ''optimization could not be solved: '' @ lp_message ?sol) ?diag"
  have run: "optimize_medium molar_mass solve_linear_program get_compounds_by_cids medium_input
      = Inr ?res"
    using assms by (auto simp: optimize_medium_def solve_call_def Let_def)
  have res: "\<not> success ?res" "diagnostics ?res = Some ?diag"
    by (simp_all add: failure_def)
  have a: "sublist (u ''A total of '' @ dec (length rows) @ u '' constraints were applied'') ?diag"
    using analyze_states_constraints [of ?b ?cols ?sel] by simp
  have b: "names_element ?diag e" if "e \<in> set ?sel" and "absent_everywhere ?sel compounds_df e" for e
    using that by (intro analyze_names_missing) (simp_all add: is_missing_element_columns)
  have c: "sublist (u ''All required elements were found in the provided compounds, but the constraints could not be satisfied.'') ?diag"
    if "\<forall>e\<in>set ?sel. \<not> absent_everywhere ?sel compounds_df e"
    using that by (intro analyze_all_found) (simp add: is_missing_element_columns)
  from run res a b c show ?thesis
    by blast
qed

theorem optimize_medium_diagnostics_witness:
  "\<exists>res diag.
      optimize_medium (\<lambda>e. 12)
        (\<lambda>a b n. \<lparr>lp_success = False, lp_message = u ''infeasible'', lp_x = None\<rparr>)
        (\<lambda>cids. Inr [\<lparr>pubchem_cid = u ''5793'', formula_anhydrous = u ''C6H12O6'', mw = Some 180\<rparr>])
        \<lparr>compound_cids = [u ''5793''], max_dry_biomass_g_per_l = 10,
         required_elements =
           [(u ''C'', \<lparr>reference_yield_g_cdw_per_g = 1, excess_factor = 1\<rparr>),
            (u ''Co'', \<lparr>reference_yield_g_cdw_per_g = 100000, excess_factor = 20\<rparr>)]\<rparr>
        = Inr res
      \<and> \<not> success res \<and> diagnostics res = Some diag
      \<and> sublist (u ''A total of '' @ dec 2 @ u '' constraints were applied'') diag
      \<and> names_element diag (u ''Co'')"
proof -
  let ?comps = "[\<lparr>pubchem_cid = u ''5793'', formula_anhydrous = u ''C6H12O6'', mw = Some 180\<rparr>]"
  let ?inp = "\<lparr>compound_cids = [u ''5793''], max_dry_biomass_g_per_l = 10,
         required_elements =
           [(u ''C'', \<lparr>reference_yield_g_cdw_per_g = 1, excess_factor = 1\<rparr>),
            (u ''Co'', \<lparr>reference_yield_g_cdw_per_g = 100000, excess_factor = 20\<rparr>)]\<rparr>"
  let ?rows = "[(u ''C'', 10, 10 / 12), (u ''Co'', 10 / 100000 * 20, 10 / 100000 * 20 / 12)]
      :: (str \<times> real \<times> real) list"
  let ?solve = "\<lambda>(a :: int list list) (b :: real list) (n :: nat).
      \<lparr>lp_success = False, lp_message = u ''infeasible'', lp_x = None\<rparr>"
  have rows: "requirement_rows (\<lambda>e. 12) (max_dry_biomass_g_per_l ?inp) (required_elements ?inp)
      = Inr ?rows"
    by (simp add: Let_def)
  have absent: "absent_everywhere (map fst ?rows) ?comps (u ''Co'')"
    by (simp add: absent_everywhere_def count_of_def elemental_counts_def store_count_def u_def
        int_of_digits_def is_upper_def is_lower_def is_digit_def)
  from optimize_medium_diagnostics [of "\<lambda>cids. Inr ?comps" ?inp ?comps "\<lambda>e. 12" ?rows ?solve,
      OF refl _ rows]
  obtain res diag where
    "optimize_medium (\<lambda>e. 12) ?solve (\<lambda>cids. Inr ?comps) ?inp = Inr res"
    "\<not> success res" "diagnostics res = Some diag"
    "sublist (u ''A total of '' @ dec (length ?rows) @ u '' constraints were applied'') diag"
    "\<forall>e\<in>set (map fst ?rows). absent_everywhere (map fst ?rows) ?comps e \<longrightarrow> names_element diag e"
    by (auto simp: solve_call_def)
  with absent show ?thesis
    by (intro exI [of _ res] exI [of _ diag]) (simp add: numeral_2_eq_2)
qed



section \<open>Python values in table cells\<close>

text \<open>
  A cell of a data frame, or an item of a list of identifiers: \<open>None\<close>, the float NaN, a
  string, or a number (an integer or a float other than NaN).  A number is carried as the
  text that \<open>str()\<close> gives for it; the code under study converts numbers to text before it
  looks at them.
\<close>

datatype cell = CNone | CNaN | CStr str | CNum str

definition py_str :: "cell \<Rightarrow> str" where
  "py_str v = (case v of CNone \<Rightarrow> u ''None'' | CNaN \<Rightarrow> u ''nan'' | CStr s \<Rightarrow> s | CNum s \<Rightarrow> s)"

section \<open>Resolving identifiers: \<open>CompoundDb.get_compounds_by_cids\<close>\<close>

text \<open>\<open>str.removesuffix\<close> and \<open>compound_db._normalize_cid\<close>.\<close>

definition removesuffix :: "str \<Rightarrow> str \<Rightarrow> str" where
  "removesuffix suf s =
     (if length suf \<le> length s \<and> drop (length s - length suf) s = suf
      then take (length s - length suf) s else s)"

definition normalize_cid :: "cell \<Rightarrow> str" where
  "normalize_cid v =
     (let s = strip (py_str v)
      in if s = [] \<or> lower s = u ''none'' \<or> lower s = u ''nan'' then []
         else removesuffix (u ''.0'') s)"

text \<open>
  \<open>pd.Categorical(hit["PubChem CID"], categories=wanted, ordered=True)\<close> raises
  \<open>ValueError\<close> unless the categories are unique.  Sorting by the categorical column then
  orders the rows by the position of their identifier among the categories.  Rows of equal
  position keep their table order here; pandas does not promise that for them.
\<close>

fun index_of :: "'a list \<Rightarrow> 'a \<Rightarrow> nat" where
  "index_of [] x = 0"
| "index_of (y # ys) x = (if x = y then 0 else Suc (index_of ys x))"

definition order_by_categories :: "str list \<Rightarrow> (str \<times> 'a) list \<Rightarrow> exn + (str \<times> 'a) list" where
  "order_by_categories categories hit =
     (if \<not> distinct categories then Inl ValueError
      else Inr (sort_key (\<lambda>row. index_of categories (fst row)) hit))"

text \<open>
  The loaded table \<open>df\<close> is a list of rows, each a pair of its \<open>PubChem CID\<close> (a string,
  after \<open>load\<close> has normalised the column) and the rest of the row.  The result is the
  returned frame or the exception, together with the identifiers requested from PubChem
  during the call.  With \<open>fetch_missing\<close> the work is done by
  \<open>get_compounds_by_cids_async\<close>, an argument here.
\<close>

definition wanted_cids :: "cell list \<Rightarrow> str list" where
  "wanted_cids cids = filter (\<lambda>w. w \<noteq> []) (map normalize_cid cids)"

definition get_compounds_by_cids ::
    "(cell list \<Rightarrow> (exn + (str \<times> 'a) list) \<times> str list) \<Rightarrow> bool \<Rightarrow> (str \<times> 'a) list \<Rightarrow>
     cell list \<Rightarrow> bool \<Rightarrow> (exn + (str \<times> 'a) list) \<times> str list" where
  "get_compounds_by_cids get_compounds_by_cids_async in_running_event_loop df cids fetch_missing =
     (if fetch_missing \<and> in_running_event_loop then (Inl RuntimeError, [])
      else if fetch_missing then get_compounds_by_cids_async cids
      else
        let wanted = wanted_cids cids
        in if wanted = [] then (Inr [], [])
           else if df = [] then (Inr [], [])
           else
             let hit = filter (\<lambda>row. fst row \<in> set wanted) df
             in if hit = [] then (Inr [], [])
                else (order_by_categories wanted hit, []))"


subsection \<open>Positions in the request\<close>

lemma index_of_less: "x \<in> set xs \<Longrightarrow> index_of xs x < length xs"
  by (induction xs) auto

lemma nth_index_of: "x \<in> set xs \<Longrightarrow> xs ! index_of xs x = x"
  by (induction xs) auto

lemma index_of_inj: "x \<in> set xs \<Longrightarrow> y \<in> set xs \<Longrightarrow> index_of xs x = index_of xs y \<Longrightarrow> x = y"
  by (metis nth_index_of)

subsection \<open>Duplicates in the request\<close>

text \<open>
  C10.  If an identifier occurs twice among the normalised, non-empty requested
  identifiers and some row of the table matches a requested identifier, the call without
  \<open>fetch_missing\<close> raises \<open>ValueError\<close>.
\<close>

theorem duplicate_request_raises:
  assumes "\<not> distinct (wanted_cids cids)"
    and "\<exists>row\<in>set df. fst row \<in> set (wanted_cids cids)"
  shows "get_compounds_by_cids get_compounds_by_cids_async in_running_event_loop df cids False
     = (Inl ValueError, [])"
proof -
  from assms(1) have w: "wanted_cids cids \<noteq> []" by auto
  from assms(2) have d: "df \<noteq> []" by auto
  from assms(2) have h: "filter (\<lambda>row. fst row \<in> set (wanted_cids cids)) df \<noteq> []"
    by (auto simp: filter_empty_conv)
  show ?thesis
    using w d h assms(1)
    by (simp add: get_compounds_by_cids_def order_by_categories_def Let_def)
qed

theorem duplicate_request_raises_witness:
  "\<not> distinct (wanted_cids [CStr (u ''5793''), CNum (u ''5793.0'')])
   \<and> (\<exists>row\<in>set [(u ''5793'', ())]. fst row \<in> set (wanted_cids [CStr (u ''5793''), CNum (u ''5793.0'')]))
   \<and> get_compounds_by_cids (\<lambda>cids. (Inr [], [])) False [(u ''5793'', ())]
         [CStr (u ''5793''), CNum (u ''5793.0'')] False
       = (Inl ValueError, [])"
proof -
  have w: "wanted_cids [CStr (u ''5793''), CNum (u ''5793.0'')] = [u ''5793'', u ''5793'']"
    by (simp add: wanted_cids_def normalize_cid_def py_str_def strip_def removesuffix_def
        lower_def lower_cp_def is_upper_def is_space_def u_def Let_def)
  have a: "\<not> distinct (wanted_cids [CStr (u ''5793''), CNum (u ''5793.0'')])"
    by (simp add: w)
  have b: "\<exists>row\<in>set [(u ''5793'', ())].
      fst row \<in> set (wanted_cids [CStr (u ''5793''), CNum (u ''5793.0'')])"
    by (simp add: w)
  from a b duplicate_request_raises [OF a b] show ?thesis
    by blast
qed

text \<open>
  C7.  The request \<open>["5793", "5793"]\<close> against a table that holds \<open>5793\<close> does not
  return the matching row: the call raises.
\<close>

theorem get_compounds_by_cids_duplicate_request:
  "get_compounds_by_cids (\<lambda>cids. (Inr [], [])) False [(u ''5793'', ())]
     [CStr (u ''5793''), CStr (u ''5793'')] False
   = (Inl ValueError, [])"
  by (simp add: get_compounds_by_cids_def order_by_categories_def wanted_cids_def
      normalize_cid_def py_str_def strip_def removesuffix_def lower_def lower_cp_def
      is_upper_def is_space_def u_def Let_def)

subsection \<open>Requests without duplicates\<close>

text \<open>
  When the normalised identifiers are distinct, the call without \<open>fetch_missing\<close> returns
  the matching rows ordered by the position of their identifier in the request, requests
  nothing from PubChem, and raises nothing whatever is missing.  When the identifiers of
  the table are distinct as well, the identifiers of the result are the requested ones
  that the table holds, in the order of the request.
\<close>

lemma get_compounds_by_cids_distinct:
  assumes "distinct (wanted_cids cids)"
  shows "\<exists>rows.
      get_compounds_by_cids get_compounds_by_cids_async in_running_event_loop df cids False
        = (Inr rows, [])
      \<and> mset rows = mset (filter (\<lambda>row. fst row \<in> set (wanted_cids cids)) df)
      \<and> sorted (map (\<lambda>row. index_of (wanted_cids cids) (fst row)) rows)"
  using assms
  by (auto simp: get_compounds_by_cids_def order_by_categories_def Let_def filter_empty_conv)


lemma map_index_of_distinct: "distinct xs \<Longrightarrow> map (index_of xs) xs = [0..<length xs]"
proof (induction xs)
  case (Cons x xs)
  have "map (index_of (x # xs)) (x # xs) = 0 # map Suc (map (index_of xs) xs)"
    using Cons.prems by auto
  also have "\<dots> = 0 # map Suc [0..<length xs]"
    using Cons by simp
  also have "\<dots> = [0..<length (x # xs)]"
    by (simp add: map_Suc_upt upt_conv_Cons del: upt_Suc)
  finally show ?case .
qed simp

lemma sorted_index_of_filter:
  assumes "distinct xs"
  shows "sorted (map (index_of xs) (filter P xs))"
proof -
  have "sorted (map (index_of xs) xs)"
    using assms by (simp add: map_index_of_distinct)
  then show ?thesis
    by (rule sorted_filter)
qed

lemma get_compounds_by_cids_request_order:
  assumes w: "distinct (wanted_cids cids)" and d: "distinct (map fst df)"
  shows "\<exists>rows.
      get_compounds_by_cids get_compounds_by_cids_async in_running_event_loop df cids False
        = (Inr rows, [])
      \<and> map fst rows = filter (\<lambda>w. w \<in> fst ` set df) (wanted_cids cids)"
proof -
  let ?w = "wanted_cids cids"
  let ?f = "index_of ?w"
  from get_compounds_by_cids_distinct [OF w, of get_compounds_by_cids_async in_running_event_loop df]
  obtain rows where run:
      "get_compounds_by_cids get_compounds_by_cids_async in_running_event_loop df cids False
        = (Inr rows, [])"
    and ms: "mset rows = mset (filter (\<lambda>row. fst row \<in> set ?w) df)"
    and so: "sorted (map (\<lambda>row. ?f (fst row)) rows)"
    by blast
  define a where "a = map fst rows"
  define b where "b = filter (\<lambda>w. w \<in> fst ` set df) ?w"
  have "mset a = mset (map fst (filter (\<lambda>row. fst row \<in> set ?w) df))"
    unfolding a_def using ms by (metis mset_map)
  moreover have "distinct (map fst (filter (\<lambda>row. fst row \<in> set ?w) df))"
    using d by (simp add: distinct_map_filter)
  ultimately have da: "distinct a"
    by (metis mset_eq_imp_distinct_iff)
  have "set rows = set (filter (\<lambda>row. fst row \<in> set ?w) df)"
    using ms by (rule mset_eq_setD)
  then have sa: "set a = fst ` set df \<inter> set ?w"
    unfolding a_def by auto
  have sb: "set b = fst ` set df \<inter> set ?w"
    unfolding b_def by auto
  have inj: "inj_on ?f (set ?w)"
    by (auto intro: inj_onI index_of_inj)
  have inja: "inj_on ?f (set a)" and injb: "inj_on ?f (set b)"
    using inj sa sb by (auto intro: inj_on_subset)
  have "map ?f a = map ?f b"
  proof (rule sorted_distinct_set_unique)
    show "sorted (map ?f a)" using so by (simp add: a_def comp_def)
    show "sorted (map ?f b)" unfolding b_def using w by (rule sorted_index_of_filter)
    show "distinct (map ?f a)"
      using da inja by (simp add: distinct_map)
    show "distinct (map ?f b)"
      using w injb by (simp add: distinct_map b_def)
    show "set (map ?f a) = set (map ?f b)"
      using sa sb by simp
  qed
  moreover have "inj_on ?f (set a \<union> set b)"
    using inj sa sb by (auto intro: inj_on_subset)
  ultimately have "a = b"
    by (simp add: inj_on_map_eq_map)
  with run show ?thesis
    unfolding a_def b_def by blast
qed



section \<open>Deriving the anhydrous columns: \<open>paths.ensure_db_schema\<close>\<close>

text \<open>
  The function works column by column, so the compound table is modelled as its columns:
  \<open>Formula\<close>, \<open>Formula (-H2O)\<close>, \<open>MW\<close> and \<open>MW (-H2O)\<close>, each of which may be absent
  from the frame, and the remaining columns row by row.  All columns have the length of
  the frame, and the index is the default one (callers reset it), so a Boolean selection
  addresses rows by position.  The two mass columns hold floats, \<open>None\<close> standing for NaN;
  \<open>pd.to_numeric\<close> leaves such columns as they are.  Floats are modelled as real numbers.
\<close>

record 'a db_frame =
  other_columns :: "'a list"
  formula_col :: "cell list option"
  formula_anhydrous_col :: "cell list option"
  mw_col :: "real option list option"
  mw_anhydrous_col :: "real option list option"

text \<open>
  \<open>col[flags]\<close> reads the selected entries in order; \<open>out.loc[flags, col] = values\<close>
  writes the values to the selected entries in order.
\<close>

definition select_masked :: "bool list \<Rightarrow> 'a list \<Rightarrow> 'a list" where
  "select_masked flags col = map snd (filter fst (zip flags col))"

fun assign_masked :: "bool list \<Rightarrow> 'a list \<Rightarrow> 'a list \<Rightarrow> 'a list" where
  "assign_masked (m # flags) vs (c # col) =
     (if m then (case vs of v # vs' \<Rightarrow> v # assign_masked flags vs' col
                          | [] \<Rightarrow> c # assign_masked flags [] col)
      else c # assign_masked flags vs col)"
| "assign_masked flags vs col = col"

text \<open>
  \<open>MW - _water_count.fillna(0).astype(float) * h2o\<close> for one row; \<open>h2o\<close> is the value of
  \<open>molar_mass_h2o()\<close>.
\<close>

definition minus_water :: "real \<Rightarrow> real option \<Rightarrow> nat option \<Rightarrow> real option" where
  "minus_water h2o m w =
     (case m of None \<Rightarrow> None
              | Some x \<Rightarrow> Some (x - real (case w of None \<Rightarrow> 0 | Some k \<Rightarrow> k) * h2o))"

definition ensure_db_schema :: "real \<Rightarrow> 'a db_frame \<Rightarrow> 'a db_frame" where
  "ensure_db_schema h2o df =
     (let n = length (other_columns df)
      in if n = 0 then df
         else
           let formula = map_option (map py_str) (formula_col df);
               formula_anhydrous =
                 (case formula_anhydrous_col df of
                    Some col \<Rightarrow> map py_str col | None \<Rightarrow> replicate n []);
               mw = (case mw_col df of Some col \<Rightarrow> col | None \<Rightarrow> replicate n None);
               mw_anhydrous =
                 (case mw_anhydrous_col df of Some col \<Rightarrow> col | None \<Rightarrow> replicate n None);
               needs_formula =
                 (case formula of
                    None \<Rightarrow> replicate n False
                  | Some col \<Rightarrow> map (\<lambda>s. strip s = []) formula_anhydrous);
               needs_mw = map (\<lambda>v. v = None) mw_anhydrous;
               needs_any = map (\<lambda>(a, b). a \<or> b) (zip needs_formula needs_mw);
               derived =
                 (case formula of
                    None \<Rightarrow> (formula_anhydrous, replicate n (Some 0))
                  | Some col \<Rightarrow>
                      if True \<in> set needs_any then
                        let splits = map split_hydrate_formula (select_masked needs_any col);
                            bases = map fst splits;
                            waters = map snd splits
                        in (if True \<in> set needs_formula
                            then assign_masked needs_formula
                                   (take (length (filter id needs_formula)) bases)
                                   formula_anhydrous
                            else formula_anhydrous,
                            assign_masked needs_any (map Some waters) (replicate n None))
                      else (formula_anhydrous, replicate n (Some 0)));
               water_count = snd derived;
               mw_anhydrous' =
                 (if True \<in> set needs_mw
                  then assign_masked needs_mw
                         (select_masked needs_mw
                            (map (\<lambda>(m, w). minus_water h2o m w) (zip mw water_count)))
                         mw_anhydrous
                  else mw_anhydrous)
           in df\<lparr>formula_col := map_option (map CStr) formula,
                 formula_anhydrous_col := Some (map CStr (fst derived)),
                 mw_col := Some mw,
                 mw_anhydrous_col := Some mw_anhydrous'\<rparr>)"

text \<open>
  The builder derives the same two columns row by row, in \<open>compute_minus_h2o\<close> of
  \<open>build_compound_db\<close>: base and mass come from the formula of the row itself.
\<close>

definition compute_minus_h2o :: "real \<Rightarrow> cell \<Rightarrow> real option \<Rightarrow> str option \<times> real option" where
  "compute_minus_h2o h2o formula m =
     (case formula of
        CStr s \<Rightarrow>
          if strip s = [] then (None, None)
          else
            (case build_split_hydrate_formula s of
               (base, n) \<Rightarrow>
                 (case m of None \<Rightarrow> (Some base, None)
                          | Some x \<Rightarrow> (Some base, Some (x - real n * h2o))))
      | _ \<Rightarrow> (None, None))"

text \<open>
  A table of two rows.  Sodium chloride has its anhydrous formula but no anhydrous mass;
  cobalt chloride hexahydrate has neither.
\<close>

definition mixed_table :: "unit db_frame" where
  "mixed_table =
     \<lparr>other_columns = [(), ()],
      formula_col = Some [CStr (u ''NaCl''), CStr (u ''CoCl2'' @ [bullet] @ u ''6H2O'')],
      formula_anhydrous_col = Some [CStr (u ''NaCl''), CStr []],
      mw_col = Some [Some (5844 / 100), Some (23793 / 100)],
      mw_anhydrous_col = Some [None, None]\<rparr>"


text \<open>
  C6.  For the second row the derived anhydrous formula should be the base of its own
  formula, \<open>CoCl2\<close>.  It is \<open>NaCl\<close>: the bases are computed for every row that needs
  anything, and the first of them are written to the rows that need a formula.  The
  anhydrous masses are derived from the water count of the row itself.
\<close>

theorem ensure_db_schema_misaligned:
  "formula_anhydrous_col (ensure_db_schema (1801528 / 100000) mixed_table)
     = Some [CStr (u ''NaCl''), CStr (u ''NaCl'')]
   \<and> split_hydrate_formula (u ''CoCl2'' @ [bullet] @ u ''6H2O'') = (u ''CoCl2'', 6)
   \<and> mw_anhydrous_col (ensure_db_schema (1801528 / 100000) mixed_table)
     = Some [Some (5844 / 100), Some (23793 / 100 - 6 * (1801528 / 100000))]"
  by (simp add: ensure_db_schema_def mixed_table_def select_masked_def minus_water_def Let_def
      py_str_def split_hydrate_formula_def u_def bullet_def middot_def
      strip_def is_space_def replace_cp_def match_water_here_def h2o_at_boundary_def
      is_digit_def is_word_def is_upper_def is_lower_def int_of_digits_def)

end
